theory Spec2Isabelle
  imports Complex_Main "HOL-Library.Word"
begin

chapter \<open>The search page: \<^verbatim>\<open>src/frontend/app/page.tsx\<close>\<close>

text \<open>
  The file holds two revisions of \<^verbatim>\<open>HomePage\<close>. The first one (lines 1 to 165) has the
  \<^verbatim>\<open>aiMode\<close>, \<^verbatim>\<open>error\<close> and \<^verbatim>\<open>aiAnswer\<close> state and talks to the backend with
  \<^verbatim>\<open>fetch\<close>; it is the one modelled here. The second one queries Supabase directly and
  has none of these three state variables.
\<close>

section \<open>JavaScript values\<close>

text \<open>
  A JavaScript string is a sequence of UTF-16 code units. \<open>js\<close> embeds an ASCII literal
  of the source.
\<close>

type_synonym jsstring = "16 word list"

definition js :: "string \<Rightarrow> jsstring" where
  "js s = map of_char s"

text \<open>
  \<^verbatim>\<open>String.prototype.trim\<close> removes, at both ends, the code points of the ECMAScript
  productions WhiteSpace (TAB, VT, FF, SP, NBSP, ZWNBSP and the category Zs) and
  LineTerminator (LF, CR, LS, PS). All of them are single code units.
\<close>

definition is_white_space :: "16 word \<Rightarrow> bool" where
  "is_white_space c \<longleftrightarrow>
     c \<in> {0x9, 0xA, 0xB, 0xC, 0xD, 0x20, 0xA0, 0x1680, 0x2028, 0x2029,
          0x202F, 0x205F, 0x3000, 0xFEFF}
     \<or> (0x2000 \<le> c \<and> c \<le> 0x200A)"

definition trim :: "jsstring \<Rightarrow> jsstring" where
  "trim s = rev (dropWhile is_white_space (rev (dropWhile is_white_space s)))"

text \<open>
  The values a parsed JSON body and a property read can give. Numbers are IEEE doubles;
  the page never computes with them, so their type is left opaque.
\<close>

typedecl jsnumber

datatype jsval =
    JUndefined
  | JNull
  | JBool bool
  | JNum jsnumber
  | JStr jsstring
  | JArr "jsval list"
  | JObj "(jsstring \<times> jsval) list"

text \<open>
  \<^verbatim>\<open>data.name\<close> for a name that is no built-in property (the page reads \<^verbatim>\<open>answer\<close>,
  \<^verbatim>\<open>products\<close> and \<^verbatim>\<open>results\<close>): a TypeError on \<^verbatim>\<open>null\<close> and \<^verbatim>\<open>undefined\<close>
  (\<open>None\<close>), the own property of an object, \<^verbatim>\<open>undefined\<close> otherwise.
\<close>

fun field :: "jsval \<Rightarrow> jsstring \<Rightarrow> jsval option" where
  "field JUndefined name = None"
| "field JNull name = None"
| "field (JObj kvs) name = Some (case map_of kvs name of None \<Rightarrow> JUndefined | Some v \<Rightarrow> v)"
| "field v name = Some JUndefined"

text \<open>The operator \<^verbatim>\<open>??\<close>.\<close>

fun nullish :: "jsval \<Rightarrow> jsval \<Rightarrow> jsval" where
  "nullish JUndefined d = d"
| "nullish JNull d = d"
| "nullish v d = v"

section \<open>The network\<close>

text \<open>
  What \<^verbatim>\<open>fetch\<close> is called with, and what it gives back: the promise rejects, or it
  resolves to a response with a status and a body. \<^verbatim>\<open>res.ok\<close> is true for the statuses
  200 to 299; \<^verbatim>\<open>res.json()\<close> rejects (\<open>None\<close>) when the body is not JSON.
\<close>

record request =
  url :: jsstring
  http_method :: jsstring
  headers :: "(jsstring \<times> jsstring) list"
  body :: "jsstring option"

record response =
  status :: nat
  json :: "jsval option"

definition ok :: "response \<Rightarrow> bool" where
  "ok res \<longleftrightarrow> 200 \<le> status res \<and> status res \<le> 299"

datatype fetch_result = Rejected | Resolved response

text \<open>
  The surroundings of the component: the constant \<^verbatim>\<open>API_URL\<close> (read from the process
  environment, \<^verbatim>\<open>'http://localhost:8000'\<close> by default), the backend behind \<^verbatim>\<open>fetch\<close>,
  and the two built-ins the page calls. \<^verbatim>\<open>encodeURIComponent\<close> throws a URIError
  (\<open>None\<close>) on a lone surrogate.
\<close>

record env =
  API_URL :: jsstring
  fetch :: "request \<Rightarrow> fetch_result"
  JSON_stringify :: "jsval \<Rightarrow> jsstring"
  encodeURIComponent :: "jsstring \<Rightarrow> jsstring option"

section \<open>The component state and \<^verbatim>\<open>handleSearch\<close>\<close>

text \<open>The seven \<^verbatim>\<open>useState\<close> cells of \<^verbatim>\<open>HomePage\<close>, and their initial values.\<close>

record page_state =
  query :: jsstring
  products :: jsval
  loading :: bool
  searched :: bool
  error :: jsstring
  aiMode :: bool
  aiAnswer :: jsval

definition initial_state :: page_state where
  "initial_state =
     \<lparr>query = [], products = JArr [], loading = False, searched = False, error = [],
      aiMode = True, aiAnswer = JStr []\<rparr>"

text \<open>
  The two branches of the \<^verbatim>\<open>try\<close> block. Each returns the state after the block, or
  \<open>None\<close> when the block throws, and the requests it has issued. Every setter of the
  block stands after the last expression that can throw, so a block that throws has
  changed no state.
\<close>

definition ask_request :: "env \<Rightarrow> jsstring \<Rightarrow> request" where
  "ask_request e searchQuery =
     \<lparr>url = API_URL e @ js ''/ask'',
      http_method = js ''POST'',
      headers = [(js ''Content-Type'', js ''application/json'')],
      body = Some (JSON_stringify e (JObj [(js ''question'', JStr searchQuery)]))\<rparr>"

definition search_request :: "env \<Rightarrow> jsstring \<Rightarrow> request" where
  "search_request e q =
     \<lparr>url = API_URL e @ js ''/search?q='' @ q,
      http_method = js ''GET'',
      headers = [],
      body = None\<rparr>"

definition ask_branch :: "env \<Rightarrow> jsstring \<Rightarrow> page_state \<Rightarrow> page_state option \<times> request list" where
  "ask_branch e searchQuery st =
     (let req = ask_request e searchQuery in
      case fetch e req of
        Rejected \<Rightarrow> (None, [req])
      | Resolved res \<Rightarrow>
          if \<not> ok res then (None, [req])
          else (case json res of
              None \<Rightarrow> (None, [req])
            | Some data \<Rightarrow>
                (case field data (js ''answer'') of
                  None \<Rightarrow> (None, [req])
                | Some answer \<Rightarrow>
                    (case field data (js ''products'') of
                      None \<Rightarrow> (None, [req])
                    | Some ps \<Rightarrow>
                        (Some (st\<lparr>aiAnswer := answer, products := nullish ps (JArr [])\<rparr>),
                         [req])))))"

definition search_branch :: "env \<Rightarrow> jsstring \<Rightarrow> page_state \<Rightarrow> page_state option \<times> request list" where
  "search_branch e searchQuery st =
     (case encodeURIComponent e searchQuery of
        None \<Rightarrow> (None, [])
      | Some q \<Rightarrow>
          (let req = search_request e q in
           case fetch e req of
             Rejected \<Rightarrow> (None, [req])
           | Resolved res \<Rightarrow>
               if \<not> ok res then (None, [req])
               else (case json res of
                   None \<Rightarrow> (None, [req])
                 | Some data \<Rightarrow>
                     (case field data (js ''results'') of
                       None \<Rightarrow> (None, [req])
                     | Some rs \<Rightarrow> (Some (st\<lparr>products := nullish rs (JArr [])\<rparr>), [req])))))"

text \<open>
  \<^verbatim>\<open>handleSearch\<close>, run to completion from the state \<open>st\<close> of the render that created
  it (its \<^verbatim>\<open>aiMode\<close> is the one of that render): the state after all its setters, and
  the requests issued. \<^verbatim>\<open>!searchQuery.trim()\<close> is true exactly when the trimmed string
  is empty.
\<close>

definition failed_message :: jsstring where
  "failed_message = js ''Failed to fetch results. Is the backend running?''"

definition handleSearch :: "env \<Rightarrow> page_state \<Rightarrow> jsstring \<Rightarrow> page_state \<times> request list" where
  "handleSearch e st searchQuery =
     (if trim searchQuery = [] then (st, [])
      else
        let st1 = st\<lparr>query := searchQuery, loading := True, error := [], searched := True,
                     aiAnswer := JStr []\<rparr>;
            (r, reqs) = (if aiMode st then ask_branch e searchQuery st1
                         else search_branch e searchQuery st1);
            st2 = (case r of
                     Some st' \<Rightarrow> st'
                   | None \<Rightarrow> st1\<lparr>error := failed_message, products := JArr []\<rparr>)
        in (st2\<lparr>loading := False\<rparr>, reqs))"

text \<open>A request has failed when its promise rejects or its response is not ok.\<close>

definition request_failed :: "env \<Rightarrow> request \<Rightarrow> bool" where
  "request_failed e req \<longleftrightarrow>
     (case fetch e req of Rejected \<Rightarrow> True | Resolved res \<Rightarrow> \<not> ok res)"

text \<open>Backends for the examples: one that is down, one that answers 503.\<close>

definition env_down :: env where
  "env_down =
     \<lparr>API_URL = js ''http://localhost:8000'', fetch = (\<lambda>req. Rejected),
      JSON_stringify = (\<lambda>v. []), encodeURIComponent = Some\<rparr>"

definition env_503 :: env where
  "env_503 =
     \<lparr>API_URL = js ''http://localhost:8000'',
      fetch = (\<lambda>req. Resolved \<lparr>status = 503, json = None\<rparr>),
      JSON_stringify = (\<lambda>v. []), encodeURIComponent = Some\<rparr>"

chapter \<open>The ingestion pipeline\<close>

text \<open>
  The pipeline that fills the store the page reads (Scrape, Download, Transcribe, Extract,
  Load) is described by the specification. Its code is not among the sources: the README
  names \<^verbatim>\<open>scripts/run_pipeline.py\<close> and one script per stage, and \<^verbatim>\<open>src/\<close> holds the
  search page and its search bar only. The definitions of this chapter follow the words
  of the specification, for the two stages whose effect on the stored data it spells
  out: the Scrape stage (section 4.2) and the Load stage (section 4.6).
\<close>

section \<open>Posts and their pipeline state\<close>

text \<open>
  Modelled from the spec: the five statuses a stage of a Post can have (section 3,
  PipelineState: pending, in progress, done, failed-transient, failed-permanent). The
  state table of the pipeline scripts is missing from the sources.
\<close>

datatype stage_status = Pending | In_progress | Done | Failed_transient | Failed_permanent

text \<open>
  Modelled from the spec: what PipelineState records for one stage (section 3): "a
  status, a content hash of the stage's output (for cache lookup), and a retry counter".
\<close>

record stage_record =
  st_status :: stage_status
  st_output_hash :: "string option"
  st_retries :: nat

text \<open>
  Modelled from the spec: PipelineState, "one record per Post", with one entry per stage
  of the glossary (scrape, download, transcribe, extract, load).
\<close>

record pipeline_state =
  scrape_st :: stage_record
  download_st :: stage_record
  transcribe_st :: stage_record
  extract_st :: stage_record
  load_st :: stage_record

text \<open>
  Modelled from the spec: a Post (section 3): "platform, post id (unique per platform),
  influencer reference, one or more media URLs, raw scrape metadata (caption,
  timestamp)"; the mutable metadata are "caption/likes" (section 4.2).
\<close>

record post =
  platform :: string
  post_id :: string
  influencer :: string
  media_urls :: "string list"
  caption :: string
  likes :: nat
  posted_at :: nat

text \<open>
  Modelled from the spec: the identity key of a Post, "(platform, post id)" (section 3).
\<close>

type_synonym post_key = "string \<times> string"

text \<open>
  Modelled from the spec: the key of a stored or scraped Post, its platform and post id
  (section 3: "Identity key = (platform, post id)").
\<close>

definition key_of :: "post \<Rightarrow> post_key" where
  "key_of p = (platform p, post_id p)"

text \<open>
  Modelled from the spec: the durable state the Scrape stage writes, which the pipeline
  scripts keep and the sources do not show: the Posts and the PipelineState by Post key,
  and the influencers marked unreachable (section 4.2).
\<close>

record pipeline_store =
  posts :: "post_key \<rightharpoonup> post"
  pipeline_states :: "post_key \<rightharpoonup> pipeline_state"
  unreachable :: "string list"

section \<open>The Scrape stage\<close>

text \<open>
  Modelled from the spec: the errors of the scrape adapter (section 6: "fails with
  RateLimited, NotFound, or TransientNetwork"); the adapter itself is an external
  service.
\<close>

datatype scrape_error = RateLimited | NotFound | TransientNetwork

text \<open>
  Modelled from the spec: the two classes the Scrape stage sorts adapter errors into
  (section 4.2, "classified transient (retry later) vs permanent"), rate limits and
  network timeouts being transient and an influencer that is not found permanent
  (section 7).
\<close>

datatype error_class = Transient | Permanent

text \<open>
  Modelled from the spec: the class of each scrape error (sections 4.2 and 7): rate
  limits and network timeouts are transient, an influencer that is not found is
  permanent. The classification code is missing from the sources.
\<close>

fun classify_scrape :: "scrape_error \<Rightarrow> error_class" where
  "classify_scrape RateLimited = Transient"
| "classify_scrape TransientNetwork = Transient"
| "classify_scrape NotFound = Permanent"

text \<open>
  Modelled from the spec: the record of a stage that has the given status and has
  produced no output hash and used no retry yet (section 3, PipelineState).
\<close>

definition stage_at :: "stage_status \<Rightarrow> stage_record" where
  "stage_at st = \<lparr>st_status = st, st_output_hash = None, st_retries = 0\<rparr>"

text \<open>
  Modelled from the spec: the PipelineState of a Post that has just been created by the
  Scrape stage (section 4.2): scrape is done, the four later stages are pending.
\<close>

definition new_pipeline_state :: pipeline_state where
  "new_pipeline_state =
     \<lparr>scrape_st = stage_at Done, download_st = stage_at Pending,
      transcribe_st = stage_at Pending, extract_st = stage_at Pending,
      load_st = stage_at Pending\<rparr>"

text \<open>
  Modelled from the spec: what the Scrape stage does with one returned Post (section
  4.2; the scrape scripts are missing from the sources): "if (platform, post id) is new,
  create Post + PipelineState(stage=scrape: done, others: pending); if it already
  exists, update mutable metadata fields only (caption/likes) and leave downstream
  PipelineState untouched".
\<close>

definition record_post :: "pipeline_store \<Rightarrow> post \<Rightarrow> pipeline_store" where
  "record_post s p =
     (case posts s (key_of p) of
        None \<Rightarrow>
          s\<lparr>posts := (posts s)(key_of p \<mapsto> p),
            pipeline_states := (pipeline_states s)(key_of p \<mapsto> new_pipeline_state)\<rparr>
      | Some old \<Rightarrow>
          s\<lparr>posts := (posts s)(key_of p \<mapsto> old\<lparr>caption := caption p, likes := likes p\<rparr>)\<rparr>)"

text \<open>
  Modelled from the spec: the Scrape stage (section 4.2; the scrape scripts are missing
  from the sources): "Input: influencer handle. Calls the scraping adapter, which returns
  zero or more Post records", each handled as above in the order returned. A transient
  error is left for a later retry; a permanent one marks the influencer unreachable.
\<close>

definition scrape_stage ::
  "(string \<Rightarrow> scrape_error + post list) \<Rightarrow> pipeline_store \<Rightarrow> string \<Rightarrow> pipeline_store" where
  "scrape_stage adapter s handle =
     (case adapter handle of
        Inr ps \<Rightarrow> foldl record_post s ps
      | Inl e \<Rightarrow>
          (case classify_scrape e of
             Transient \<Rightarrow> s
           | Permanent \<Rightarrow> s\<lparr>unreachable := handle # unreachable s\<rparr>))"

text \<open>
  Two versions of a Post that differ in nothing but caption and likes.
\<close>

definition same_but_metadata :: "post \<Rightarrow> post \<Rightarrow> bool" where
  "same_but_metadata p old \<longleftrightarrow> p\<lparr>caption := caption old, likes := likes old\<rparr> = old"

section \<open>The Load stage\<close>

text \<open>
  Modelled from the spec: the retailer data of a mention. Section 3 keys a BuyLink by
  "(product id, retailer/URL)", section 4.6 names its "price/availability fields", and
  section 8 creates a BuyLink "only if a retailer URL is supplied by extraction". The
  extraction output format is missing from the sources.
\<close>

record offer =
  retailer_url :: string
  offer_price :: nat
  offer_available :: bool

text \<open>
  Modelled from the spec: a ProductMention (section 3): "product name, brand, category,
  a supporting quote/snippet, a confidence score, and the originating Post reference",
  with the retailer data when extraction supplies it.
\<close>

record mention =
  product_name :: string
  brand :: string
  category :: string
  quote :: string
  confidence :: real
  post_ref :: post_key
  offer :: "offer option"

text \<open>
  Modelled from the spec: the two tables of the relational store that the Load stage
  writes (section 3, Product / BuyLink). The schema is missing from the sources. A table
  is a list of rows, so that a duplicate row is something the model can express. A
  Product row carries the normalized brand and name (section 8: "a Product row with
  that normalized brand").
\<close>

record product_row =
  product_id :: nat
  row_brand :: string
  row_name :: string
  row_category :: string
  row_quote :: string

text \<open>
  Modelled from the spec: a row of the BuyLink table (sections 3 and 4.6): the id of its
  Product, the retailer URL, and the price and availability that a later load updates.
\<close>

record buylink_row =
  link_product :: nat
  link_retailer :: string
  link_price :: nat
  link_available :: bool

text \<open>
  Modelled from the spec: the relational store as the Load stage sees it (section 6:
  "exposes upsert-by-natural-key operations for ... Product, BuyLink"): its two tables.
\<close>

record relational_store =
  product_rows :: "product_row list"
  buylink_rows :: "buylink_row list"

text \<open>
  Modelled from the spec: the natural key of a Product row (section 3): "Product
  identity key = normalized (brand, product_name)".
\<close>

definition product_key :: "product_row \<Rightarrow> string \<times> string" where
  "product_key r = (row_brand r, row_name r)"

text \<open>
  Modelled from the spec: the natural key of a BuyLink row (section 3): "(product id,
  retailer/URL)".
\<close>

definition buylink_key :: "buylink_row \<Rightarrow> nat \<times> string" where
  "buylink_key l = (link_product l, link_retailer l)"

text \<open>
  Modelled from the spec: the id the store gives a new Product row, one that no row of
  the table has (section 3 speaks of the "product id"; how the store allots it is
  missing from the sources).
\<close>

definition fresh_id :: "product_row list \<Rightarrow> nat" where
  "fresh_id rows = Suc (fold max (map product_id rows) 0)"

text \<open>
  Modelled from the spec: the store's upsert of a Product by its natural key (sections
  4.6 and 6): "insert if absent, otherwise leave existing fields, since first-seen
  wins". It returns the table and the id of the row that now holds the key.
\<close>

definition upsert_product :: "product_row list \<Rightarrow> product_row \<Rightarrow> product_row list \<times> nat" where
  "upsert_product rows new =
     (case find (\<lambda>r. product_key r = product_key new) rows of
        Some r \<Rightarrow> (rows, product_id r)
      | None \<Rightarrow> (let i = fresh_id rows in (rows @ [new\<lparr>product_id := i\<rparr>], i)))"

text \<open>
  Modelled from the spec: the store's upsert of a BuyLink (section 4.6): "keyed by
  (product id, retailer/URL) with latest price/availability fields updated in place".
\<close>

definition upsert_buylink :: "buylink_row list \<Rightarrow> buylink_row \<Rightarrow> buylink_row list" where
  "upsert_buylink rows new =
     (if buylink_key new \<in> set (map buylink_key rows)
      then map (\<lambda>l. if buylink_key l = buylink_key new
                     then l\<lparr>link_price := link_price new, link_available := link_available new\<rparr>
                     else l) rows
      else rows @ [new])"

text \<open>
  Modelled from the spec: "case-fold" (section 4.6), here on ASCII letters. The
  normalization code is missing from the sources; the Load stage below takes the
  normalization as its parameter \<open>nf\<close>, so what is proved of it holds for every
  case folding, and \<open>normalize_text\<close> is the instance used in the examples.
\<close>

definition to_lower :: "char \<Rightarrow> char" where
  "to_lower c =
     (let n = (of_char c :: nat) in if 65 \<le> n \<and> n \<le> 90 then char_of (n + 32) else c)"

text \<open>
  Modelled from the spec: the characters that "trim, collapse whitespace" (section 4.6)
  treats as whitespace, here the ASCII ones.
\<close>

definition is_space :: "char \<Rightarrow> bool" where
  "is_space c \<longleftrightarrow> (of_char c :: nat) \<in> {9, 10, 11, 12, 13, 32}"

text \<open>
  Modelled from the spec: "collapse whitespace" (section 4.6): every run of whitespace
  between two words becomes one space, and a run at the end is dropped.
\<close>

fun squeeze :: "bool \<Rightarrow> string \<Rightarrow> string" where
  "squeeze pending [] = []"
| "squeeze pending (c # cs) =
     (if is_space c then squeeze True cs
      else (if pending then [CHR '' ''] else []) @ c # squeeze False cs)"

text \<open>
  Modelled from the spec: the normalization of section 4.6 as a whole: "case-fold, trim,
  collapse whitespace".
\<close>

definition normalize_text :: "string \<Rightarrow> string" where
  "normalize_text s = squeeze False (dropWhile is_space (map to_lower s))"

text \<open>
  Modelled from the spec: the Product identity key of a mention (section 4.6):
  "normalize brand/name ... to compute the Product identity key".
\<close>

definition mention_key :: "(string \<Rightarrow> string) \<Rightarrow> mention \<Rightarrow> string \<times> string" where
  "mention_key nf m = (nf (brand m), nf (product_name m))"

text \<open>
  Modelled from the spec: the Product row a mention asks for (section 4.6): normalized
  brand and name, with the category and quote of the mention; the store sets the id.
\<close>

definition product_row_of :: "(string \<Rightarrow> string) \<Rightarrow> mention \<Rightarrow> product_row" where
  "product_row_of nf m =
     \<lparr>product_id = 0, row_brand = nf (brand m), row_name = nf (product_name m),
      row_category = category m, row_quote = quote m\<rparr>"

text \<open>
  Modelled from the spec: the BuyLink row an offer asks for (section 4.6), under the id
  of the mention's Product.
\<close>

definition buylink_row_of :: "nat \<Rightarrow> offer \<Rightarrow> buylink_row" where
  "buylink_row_of pid off =
     \<lparr>link_product = pid, link_retailer = retailer_url off,
      link_price = offer_price off, link_available = offer_available off\<rparr>"

text \<open>
  Modelled from the spec: the Load stage on one mention (section 4.6;
  \<^verbatim>\<open>scripts/5_load_database.py\<close> is missing from the sources): "For each mention:
  normalize brand/name (case-fold, trim, collapse whitespace) to compute the Product
  identity key; upsert Product (insert if absent, otherwise leave existing fields, since
  first-seen wins); upsert BuyLink keyed by (product id, retailer/URL) with latest
  price/availability fields updated in place." The two upserts are the only writes, and
  the stage makes no existence check of its own. A mention without a retailer URL
  creates no BuyLink (section 8).
\<close>

definition load_mention ::
  "(string \<Rightarrow> string) \<Rightarrow> relational_store \<Rightarrow> mention \<Rightarrow> relational_store" where
  "load_mention nf s m =
     (let (ps, pid) = upsert_product (product_rows s) (product_row_of nf m);
          ls = (case offer m of
                  None \<Rightarrow> buylink_rows s
                | Some off \<Rightarrow> upsert_buylink (buylink_rows s) (buylink_row_of pid off))
      in \<lparr>product_rows = ps, buylink_rows = ls\<rparr>)"

text \<open>
  Modelled from the spec: the Load stage on the mention set of a Post (section 4.6): the
  mentions are loaded one after the other.
\<close>

definition load_stage ::
  "(string \<Rightarrow> string) \<Rightarrow> relational_store \<Rightarrow> mention list \<Rightarrow> relational_store" where
  "load_stage nf s ms = foldl (load_mention nf) s ms"

text \<open>
  Reading the store: the Product row of a key, the rows that carry a key, and the
  stores in which no natural key and no product id occurs twice.
\<close>

definition product_of :: "relational_store \<Rightarrow> string \<times> string \<Rightarrow> product_row option" where
  "product_of s k = find (\<lambda>r. product_key r = k) (product_rows s)"

definition products_with :: "relational_store \<Rightarrow> string \<times> string \<Rightarrow> product_row list" where
  "products_with s k = filter (\<lambda>r. product_key r = k) (product_rows s)"

definition buylinks_with :: "relational_store \<Rightarrow> nat \<times> string \<Rightarrow> buylink_row list" where
  "buylinks_with s k = filter (\<lambda>l. buylink_key l = k) (buylink_rows s)"

definition no_duplicates :: "relational_store \<Rightarrow> bool" where
  "no_duplicates s \<longleftrightarrow>
     distinct (map product_key (product_rows s))
     \<and> distinct (map product_id (product_rows s))
     \<and> distinct (map buylink_key (buylink_rows s))"

text \<open>
  A mention is loaded in a store that holds its Product and, when it has an offer, the
  BuyLink of that Product and retailer.
\<close>

definition loaded :: "(string \<Rightarrow> string) \<Rightarrow> relational_store \<Rightarrow> mention \<Rightarrow> bool" where
  "loaded nf s m \<longleftrightarrow>
     (case product_of s (mention_key nf m) of
        None \<Rightarrow> False
      | Some r \<Rightarrow>
          (case offer m of
             None \<Rightarrow> True
           | Some off \<Rightarrow>
               (product_id r, retailer_url off) \<in> set (map buylink_key (buylink_rows s))))"

section \<open>Example data\<close>

text \<open>
  A Post that has been through every stage, and a scrape that returns it again with a
  new caption, more likes and another media URL, together with a Post not seen before.
\<close>

definition old_post :: post where
  "old_post =
     \<lparr>platform = ''tiktok'', post_id = ''7301'', influencer = ''glowbyhana'',
      media_urls = [''https://cdn.example/7301.mp4''], caption = ''My everyday glow'',
      likes = 120, posted_at = 1700000000\<rparr>"

definition all_done :: pipeline_state where
  "all_done =
     \<lparr>scrape_st = stage_at Done, download_st = stage_at Done, transcribe_st = stage_at Done,
      extract_st = stage_at Done, load_st = stage_at Done\<rparr>"

definition store_one :: pipeline_store where
  "store_one =
     \<lparr>posts = [(''tiktok'', ''7301'') \<mapsto> old_post],
      pipeline_states = [(''tiktok'', ''7301'') \<mapsto> all_done],
      unreachable = []\<rparr>"

definition rescrape :: "string \<Rightarrow> scrape_error + post list" where
  "rescrape handle =
     Inr [old_post\<lparr>caption := ''My everyday glow (updated)'', likes := 450,
                   media_urls := [''https://cdn.example/other.mp4'']\<rparr>,
          old_post\<lparr>post_id := ''7302'', caption := ''Night routine'', likes := 3\<rparr>]"

text \<open>
  Two mentions of one product, spelled differently, the first with an offer; and the
  empty relational store.
\<close>

definition gloss_offer :: offer where
  "gloss_offer =
     \<lparr>retailer_url = ''https://shop.example/gloss-bomb'', offer_price = 1250,
      offer_available = True\<rparr>"

definition gloss_a :: mention where
  "gloss_a =
     \<lparr>product_name = ''Gloss Bomb'', brand = ''Fenty Beauty'', category = ''makeup'',
      quote = ''I use the Gloss Bomb every day'', confidence = 0.9,
      post_ref = (''tiktok'', ''7301''), offer = Some gloss_offer\<rparr>"

definition gloss_b :: mention where
  "gloss_b =
     \<lparr>product_name = ''  gloss   BOMB '', brand = ''FENTY  beauty'', category = ''lips'',
      quote = ''gloss bomb again'', confidence = 0.4,
      post_ref = (''tiktok'', ''7302''), offer = None\<rparr>"

definition empty_store :: relational_store where
  "empty_store = \<lparr>product_rows = [], buylink_rows = []\<rparr>"

chapter \<open>Properties\<close>

section \<open>The search page\<close>

lemma ask_branch_requests: "snd (ask_branch e q st) = [ask_request e q]"
  by (simp add: ask_branch_def Let_def split: fetch_result.split option.split)

lemma ask_branch_failed:
  "request_failed e (ask_request e q) \<Longrightarrow> fst (ask_branch e q st) = None"
  by (simp add: ask_branch_def request_failed_def Let_def split: fetch_result.splits)

lemma search_branch_requests:
  "snd (search_branch e q st) =
     (case encodeURIComponent e q of None \<Rightarrow> [] | Some q' \<Rightarrow> [search_request e q'])"
  by (simp add: search_branch_def Let_def split: fetch_result.split option.split)

lemma search_branch_failed:
  "req \<in> set (snd (search_branch e q st)) \<Longrightarrow> request_failed e req \<Longrightarrow>
     fst (search_branch e q st) = None"
  by (auto simp add: search_branch_def request_failed_def Let_def
      split: fetch_result.splits option.splits if_splits)

text \<open>
  C9. When the trimmed input is empty, \<^verbatim>\<open>handleSearch\<close> returns at once: it issues no
  request and leaves every state variable (query, products, loading, searched, error,
  aiMode, aiAnswer) as it was.
\<close>

theorem handleSearch_blank:
  "trim searchQuery = [] \<Longrightarrow> handleSearch e st searchQuery = (st, [])"
  by (simp add: handleSearch_def)

theorem handleSearch_blank_witness:
  "trim [0x20, 0x9, 0x3000, 0xA] = []
   \<and> handleSearch env_503 initial_state [0x20, 0x9, 0x3000, 0xA] = (initial_state, [])"
  using handleSearch_blank [of "[0x20, 0x9, 0x3000, 0xA]" env_503 initial_state]
  by (simp add: trim_def is_white_space_def)

text \<open>
  C10. For a query that is not blank, in either mode: when the request that
  \<^verbatim>\<open>handleSearch\<close> issues fails (the promise rejects, or the response is not ok), the
  state it leaves has the error message \<^verbatim>\<open>Failed to fetch results. Is the backend running?\<close>,
  an empty product list and \<^verbatim>\<open>loading\<close> false.
\<close>

theorem handleSearch_backend_failure:
  assumes "trim searchQuery \<noteq> []"
    and "handleSearch e st searchQuery = (st', reqs)"
    and "req \<in> set reqs"
    and "request_failed e req"
  shows "error st' = js ''Failed to fetch results. Is the backend running?''
         \<and> products st' = JArr [] \<and> loading st' = False"
proof (cases "aiMode st")
  case True
  from assms(1,2) True have reqs: "reqs = snd (ask_branch e searchQuery
      (st\<lparr>query := searchQuery, loading := True, error := [], searched := True,
          aiAnswer := JStr []\<rparr>))"
    by (auto simp add: handleSearch_def Let_def split: prod.splits)
  with assms(3) have "req = ask_request e searchQuery"
    by (simp add: ask_branch_requests)
  with assms(4) have "fst (ask_branch e searchQuery
      (st\<lparr>query := searchQuery, loading := True, error := [], searched := True,
          aiAnswer := JStr []\<rparr>)) = None"
    by (simp add: ask_branch_failed)
  with assms(1,2) True show ?thesis
    by (auto simp add: handleSearch_def Let_def failed_message_def split: prod.splits)
next
  case False
  from assms(1,2) False have reqs: "reqs = snd (search_branch e searchQuery
      (st\<lparr>query := searchQuery, loading := True, error := [], searched := True,
          aiAnswer := JStr []\<rparr>))"
    by (auto simp add: handleSearch_def Let_def split: prod.splits)
  with assms(3,4) have "fst (search_branch e searchQuery
      (st\<lparr>query := searchQuery, loading := True, error := [], searched := True,
          aiAnswer := JStr []\<rparr>)) = None"
    using search_branch_failed by blast
  with assms(1,2) False show ?thesis
    by (auto simp add: handleSearch_def Let_def failed_message_def split: prod.splits)
qed

theorem handleSearch_backend_failure_witness:
  "trim (js ''serum'') \<noteq> []
   \<and> request_failed env_down (ask_request env_down (js ''serum''))
   \<and> handleSearch env_down initial_state (js ''serum'') =
       (initial_state\<lparr>query := js ''serum'', searched := True,
           error := js ''Failed to fetch results. Is the backend running?''\<rparr>,
        [ask_request env_down (js ''serum'')])
   \<and> request_failed env_503 (search_request env_503 (js ''serum''))
   \<and> error (fst (handleSearch env_503 (initial_state\<lparr>aiMode := False\<rparr>) (js ''serum''))) =
       js ''Failed to fetch results. Is the backend running?''
   \<and> products (fst (handleSearch env_503 (initial_state\<lparr>aiMode := False\<rparr>) (js ''serum''))) =
       JArr []
   \<and> loading (fst (handleSearch env_503 (initial_state\<lparr>aiMode := False\<rparr>) (js ''serum''))) =
       False"
proof -
  let ?q = "js ''serum''"
  let ?st = "initial_state\<lparr>aiMode := False\<rparr>"
  have t: "trim ?q \<noteq> []"
    by (simp add: trim_def is_white_space_def js_def)
  have f1: "request_failed env_down (ask_request env_down ?q)"
    by (simp add: request_failed_def env_down_def)
  have r1: "handleSearch env_down initial_state ?q =
      (initial_state\<lparr>query := ?q, searched := True,
          error := js ''Failed to fetch results. Is the backend running?''\<rparr>,
       [ask_request env_down ?q])"
    using t
    by (simp add: handleSearch_def ask_branch_def Let_def initial_state_def env_down_def
        failed_message_def)
  have f2: "request_failed env_503 (search_request env_503 ?q)"
    by (simp add: request_failed_def env_503_def ok_def)
  have r2: "snd (handleSearch env_503 ?st ?q) = [search_request env_503 ?q]"
    using t
    by (simp add: handleSearch_def search_branch_def Let_def initial_state_def env_503_def
        ok_def)
  have p2: "handleSearch env_503 ?st ?q =
      (fst (handleSearch env_503 ?st ?q), snd (handleSearch env_503 ?st ?q))"
    by simp
  have m2: "search_request env_503 ?q \<in> set (snd (handleSearch env_503 ?st ?q))"
    by (simp add: r2)
  note handleSearch_backend_failure [OF t p2 m2 f2]
  with t f1 r1 f2 show ?thesis by simp
qed

section \<open>The Scrape stage\<close>

lemma record_post_existing:
  assumes "posts s k = Some old"
  shows "pipeline_states (record_post s p) k = pipeline_states s k
    \<and> (\<exists>q. posts (record_post s p) k = Some q \<and> same_but_metadata q old)"
proof (cases "key_of p = k")
  case True
  with assms show ?thesis by (simp add: record_post_def same_but_metadata_def)
next
  case False
  with assms show ?thesis
    by (auto simp add: record_post_def same_but_metadata_def split: option.split)
qed

lemma same_but_metadata_trans:
  "same_but_metadata q p \<Longrightarrow> same_but_metadata p old \<Longrightarrow> same_but_metadata q old"
  unfolding same_but_metadata_def
  by (cases q, cases p, cases old) auto

lemma record_posts_existing:
  assumes "posts s k = Some old"
  shows "pipeline_states (foldl record_post s ps) k = pipeline_states s k
    \<and> (\<exists>q. posts (foldl record_post s ps) k = Some q \<and> same_but_metadata q old)"
proof (induction ps rule: rev_induct)
  case Nil
  with assms show ?case by (simp add: same_but_metadata_def)
next
  case (snoc p ps)
  then obtain q where q: "posts (foldl record_post s ps) k = Some q" "same_but_metadata q old"
    and st: "pipeline_states (foldl record_post s ps) k = pipeline_states s k"
    by blast
  from record_post_existing [OF q(1), of p] obtain q' where
    "pipeline_states (record_post (foldl record_post s ps) p) k =
       pipeline_states (foldl record_post s ps) k"
    "posts (record_post (foldl record_post s ps) p) k = Some q'" "same_but_metadata q' q"
    by blast
  with q(2) st show ?case
    by (auto intro: same_but_metadata_trans)
qed

text \<open>
  C5. A Post that exists before the Scrape stage runs keeps its PipelineState, every
  stage of it, whatever the adapter returns; the stored Post itself changes in its
  caption and likes at most. So no stage that is done goes back to pending because of a
  metadata refresh.
\<close>

theorem scrape_existing_post:
  assumes "posts s k = Some old"
  shows "pipeline_states (scrape_stage adapter s handle) k = pipeline_states s k
    \<and> (\<exists>q. posts (scrape_stage adapter s handle) k = Some q \<and> same_but_metadata q old)"
  using assms record_posts_existing [OF assms]
  by (auto simp add: scrape_stage_def same_but_metadata_def split: sum.split error_class.split)

theorem scrape_existing_post_witness:
  "posts store_one (''tiktok'', ''7301'') = Some old_post
   \<and> pipeline_states (scrape_stage rescrape store_one ''glowbyhana'') (''tiktok'', ''7301'') =
       Some all_done
   \<and> posts (scrape_stage rescrape store_one ''glowbyhana'') (''tiktok'', ''7301'') =
       Some (old_post\<lparr>caption := ''My everyday glow (updated)'', likes := 450\<rparr>)
   \<and> pipeline_states (scrape_stage rescrape store_one ''glowbyhana'') (''tiktok'', ''7302'') =
       Some new_pipeline_state"
proof -
  have h: "posts store_one (''tiktok'', ''7301'') = Some old_post"
    by (simp add: store_one_def)
  have st: "pipeline_states store_one (''tiktok'', ''7301'') = Some all_done"
    by (simp add: store_one_def)
  have p: "posts (scrape_stage rescrape store_one ''glowbyhana'') (''tiktok'', ''7301'') =
      Some (old_post\<lparr>caption := ''My everyday glow (updated)'', likes := 450\<rparr>)"
    by (simp add: scrape_stage_def rescrape_def record_post_def key_of_def store_one_def
        old_post_def)
  have n: "pipeline_states (scrape_stage rescrape store_one ''glowbyhana'')
      (''tiktok'', ''7302'') = Some new_pipeline_state"
    by (simp add: scrape_stage_def rescrape_def record_post_def key_of_def store_one_def
        old_post_def)
  from scrape_existing_post [OF h, of rescrape "''glowbyhana''"] st h p n
  show ?thesis by simp
qed

section \<open>The Load stage\<close>

subsection \<open>Lists\<close>


lemma find_SomeD: "find P xs = Some x \<Longrightarrow> P x \<and> x \<in> set xs"
  by (induction xs) (auto split: if_splits)

lemma find_append_Some: "find P xs = Some x \<Longrightarrow> find P (xs @ ys) = Some x"
  by (induction xs) auto

lemma find_append_None: "find P xs = None \<Longrightarrow> find P (xs @ ys) = find P ys"
  by (induction xs) (auto split: if_splits)

lemma find_key_Some:
  "k \<in> set (map f xs) \<Longrightarrow> \<exists>x. find (\<lambda>y. f y = k) xs = Some x"
  by (induction xs) auto

lemma find_key_None:
  "k \<notin> set (map f xs) \<Longrightarrow> find (\<lambda>y. f y = k) xs = None"
  by (induction xs) auto

lemma filter_key_single:
  "distinct (map f xs) \<Longrightarrow> x \<in> set xs \<Longrightarrow> filter (\<lambda>y. f y = f x) xs = [x]"
proof (induction xs)
  case Nil
  then show ?case by simp
next
  case (Cons a xs)
  show ?case
  proof (cases "x = a")
    case True
    from Cons.prems(1) have "f a \<notin> f ` set xs" by simp
    then have "\<forall>y \<in> set xs. f y \<noteq> f a" by (metis imageI)
    then have "filter (\<lambda>y. f y = f a) xs = []" by (simp add: filter_empty_conv)
    with True show ?thesis by simp
  next
    case False
    with Cons.prems have "x \<in> set xs" and "f a \<noteq> f x" by auto
    with Cons show ?thesis by simp
  qed
qed

subsection \<open>The upserts\<close>

lemma upsert_product_present:
  "product_key new \<in> set (map product_key rows) \<Longrightarrow> fst (upsert_product rows new) = rows"
  using find_key_Some [of "product_key new" product_key rows]
  by (auto simp add: upsert_product_def)

lemma upsert_product_keys:
  "map product_key (fst (upsert_product rows new)) =
     (if product_key new \<in> set (map product_key rows) then map product_key rows
      else map product_key rows @ [product_key new])"
proof (cases "product_key new \<in> set (map product_key rows)")
  case True
  then show ?thesis by (simp add: upsert_product_present)
next
  case False
  then have "find (\<lambda>r. product_key r = product_key new) rows = None"
    by (rule find_key_None)
  with False show ?thesis
    by (simp add: upsert_product_def Let_def product_key_def)
qed

lemma fold_max_ge: "(a::nat) \<le> fold max xs a"
  by (induction xs arbitrary: a) (auto intro: order_trans [OF max.cobounded2])

lemma fold_max_mem: "(x::nat) \<in> set xs \<Longrightarrow> x \<le> fold max xs a"
  by (induction xs arbitrary: a) (auto intro: order_trans [OF max.cobounded1 fold_max_ge])

lemma fresh_id_new: "fresh_id rows \<notin> set (map product_id rows)"
proof
  assume "fresh_id rows \<in> set (map product_id rows)"
  then have "fresh_id rows \<le> fold max (map product_id rows) 0"
    by (rule fold_max_mem)
  then show False by (simp add: fresh_id_def)
qed

lemma upsert_product_ids:
  "map product_id (fst (upsert_product rows new)) =
     (if product_key new \<in> set (map product_key rows) then map product_id rows
      else map product_id rows @ [fresh_id rows])"
proof (cases "product_key new \<in> set (map product_key rows)")
  case True
  then show ?thesis by (simp add: upsert_product_present)
next
  case False
  then have "find (\<lambda>r. product_key r = product_key new) rows = None"
    by (rule find_key_None)
  with False show ?thesis
    by (simp add: upsert_product_def Let_def)
qed

lemma upsert_product_find:
  "\<exists>r. find (\<lambda>r. product_key r = product_key new) (fst (upsert_product rows new)) = Some r
       \<and> product_id r = snd (upsert_product rows new)"
proof (cases "find (\<lambda>r. product_key r = product_key new) rows")
  case None
  then show ?thesis
    by (simp add: upsert_product_def Let_def find_append_None product_key_def)
next
  case (Some r)
  then show ?thesis by (simp add: upsert_product_def)
qed

lemma upsert_product_stable:
  "find (\<lambda>r. product_key r = k) rows = Some r \<Longrightarrow>
     find (\<lambda>r. product_key r = k) (fst (upsert_product rows new)) = Some r"
  by (simp add: upsert_product_def Let_def find_append_Some split: option.split)

lemma upsert_buylink_keys:
  "map buylink_key (upsert_buylink rows new) =
     (if buylink_key new \<in> set (map buylink_key rows) then map buylink_key rows
      else map buylink_key rows @ [buylink_key new])"
  by (auto simp add: upsert_buylink_def buylink_key_def)

subsection \<open>One mention\<close>

lemma loaded_iff:
  "loaded nf s m \<longleftrightarrow>
     (\<exists>r. product_of s (mention_key nf m) = Some r \<and>
        (case offer m of
           None \<Rightarrow> True
         | Some off \<Rightarrow>
             (product_id r, retailer_url off) \<in> set (map buylink_key (buylink_rows s))))"
  by (simp add: loaded_def split: option.split)


lemma product_row_of_key: "product_key (product_row_of nf m) = mention_key nf m"
  by (simp add: product_key_def product_row_of_def mention_key_def)

lemma buylink_row_of_key: "buylink_key (buylink_row_of pid off) = (pid, retailer_url off)"
  by (simp add: buylink_key_def buylink_row_of_def)

lemma load_mention_products:
  "product_rows (load_mention nf s m) = fst (upsert_product (product_rows s) (product_row_of nf m))"
  by (simp add: load_mention_def split: prod.split)

lemma load_mention_buylinks:
  "buylink_rows (load_mention nf s m) =
     (case offer m of
        None \<Rightarrow> buylink_rows s
      | Some off \<Rightarrow> upsert_buylink (buylink_rows s)
          (buylink_row_of (snd (upsert_product (product_rows s) (product_row_of nf m))) off))"
  by (cases "upsert_product (product_rows s) (product_row_of nf m)")
    (simp add: load_mention_def split: option.split)

lemma load_mention_product_keys:
  "map product_key (product_rows (load_mention nf s m)) =
     (if mention_key nf m \<in> set (map product_key (product_rows s))
      then map product_key (product_rows s)
      else map product_key (product_rows s) @ [mention_key nf m])"
  unfolding load_mention_products upsert_product_keys product_row_of_key ..

lemma load_mention_buylink_keys:
  "\<exists>ks. map buylink_key (buylink_rows (load_mention nf s m)) =
       map buylink_key (buylink_rows s) @ ks
     \<and> distinct ks \<and> set ks \<inter> set (map buylink_key (buylink_rows s)) = {}"
proof (cases "offer m")
  case None
  then show ?thesis by (simp add: load_mention_buylinks)
next
  case (Some off)
  define new where
    "new = buylink_row_of (snd (upsert_product (product_rows s) (product_row_of nf m))) off"
  have rows: "buylink_rows (load_mention nf s m) = upsert_buylink (buylink_rows s) new"
    using Some by (simp add: load_mention_buylinks new_def)
  show ?thesis
  proof (cases "buylink_key new \<in> set (map buylink_key (buylink_rows s))")
    case True
    then have "map buylink_key (buylink_rows (load_mention nf s m)) =
        map buylink_key (buylink_rows s) @ []"
      unfolding rows upsert_buylink_keys by simp
    then show ?thesis by (intro exI [of _ "[]"]) simp
  next
    case False
    then have "map buylink_key (buylink_rows (load_mention nf s m)) =
        map buylink_key (buylink_rows s) @ [buylink_key new]"
      unfolding rows upsert_buylink_keys by simp
    with False show ?thesis by (intro exI [of _ "[buylink_key new]"]) simp
  qed
qed

lemma load_mention_no_duplicates:
  assumes "no_duplicates s"
  shows "no_duplicates (load_mention nf s m)"
proof -
  from load_mention_buylink_keys [of nf s m] obtain ks where
    ks: "map buylink_key (buylink_rows (load_mention nf s m)) =
         map buylink_key (buylink_rows s) @ ks"
    "distinct ks" "set ks \<inter> set (map buylink_key (buylink_rows s)) = {}"
    by blast
  from assms have "distinct (map product_key (product_rows (load_mention nf s m)))"
    unfolding load_mention_product_keys by (simp add: no_duplicates_def)
  moreover from assms have "distinct (map product_id (product_rows (load_mention nf s m)))"
    unfolding load_mention_products upsert_product_ids
    using fresh_id_new [of "product_rows s"] by (simp add: no_duplicates_def)
  moreover from assms ks have "distinct (map buylink_key (buylink_rows (load_mention nf s m)))"
    by (auto simp add: no_duplicates_def)
  ultimately show ?thesis by (simp add: no_duplicates_def)
qed

lemma load_mention_product_stable:
  "product_of s k = Some r \<Longrightarrow> product_of (load_mention nf s m) k = Some r"
  by (simp add: product_of_def load_mention_products upsert_product_stable)

lemma load_mention_loaded: "loaded nf (load_mention nf s m) m"
proof -
  define pid where "pid = snd (upsert_product (product_rows s) (product_row_of nf m))"
  from upsert_product_find [of "product_row_of nf m" "product_rows s"] obtain r where
    r: "product_of (load_mention nf s m) (mention_key nf m) = Some r" "product_id r = pid"
    by (auto simp add: product_of_def load_mention_products product_row_of_key pid_def)
  show ?thesis
  proof (cases "offer m")
    case None
    with r show ?thesis by (simp add: loaded_iff)
  next
    case (Some off)
    have "buylink_rows (load_mention nf s m) =
        upsert_buylink (buylink_rows s) (buylink_row_of pid off)"
      using Some by (simp add: load_mention_buylinks pid_def)
    then have "buylink_key (buylink_row_of pid off)
        \<in> set (map buylink_key (buylink_rows (load_mention nf s m)))"
      by (simp only: upsert_buylink_keys) simp
    with r Some show ?thesis
      by (simp add: loaded_iff buylink_row_of_key)
  qed
qed

lemma load_mention_loaded_stable:
  assumes "loaded nf s m"
  shows "loaded nf (load_mention nf s m') m"
proof -
  from assms obtain r where r: "product_of s (mention_key nf m) = Some r"
    and l: "case offer m of None \<Rightarrow> True
         | Some off \<Rightarrow> (product_id r, retailer_url off) \<in> set (map buylink_key (buylink_rows s))"
    by (auto simp add: loaded_iff)
  from r have r': "product_of (load_mention nf s m') (mention_key nf m) = Some r"
    by (rule load_mention_product_stable)
  from load_mention_buylink_keys [of nf s m'] obtain ks where
    "map buylink_key (buylink_rows (load_mention nf s m')) =
     map buylink_key (buylink_rows s) @ ks"
    by blast
  then have "set (map buylink_key (buylink_rows (load_mention nf s m'))) =
     set (map buylink_key (buylink_rows s) @ ks)"
    by simp
  then have
    "set (map buylink_key (buylink_rows s)) \<subseteq>
     set (map buylink_key (buylink_rows (load_mention nf s m')))"
    by (simp only: set_append) blast
  with l have "case offer m of None \<Rightarrow> True
         | Some off \<Rightarrow> (product_id r, retailer_url off)
             \<in> set (map buylink_key (buylink_rows (load_mention nf s m')))"
    by (auto split: option.splits)
  with r' show ?thesis by (auto simp add: loaded_iff)
qed

lemma load_mention_again:
  assumes "loaded nf s m"
  shows "product_rows (load_mention nf s m) = product_rows s
    \<and> map buylink_key (buylink_rows (load_mention nf s m)) = map buylink_key (buylink_rows s)"
proof -
  from assms obtain r where
    r: "find (\<lambda>r. product_key r = mention_key nf m) (product_rows s) = Some r"
    and l: "case offer m of None \<Rightarrow> True
         | Some off \<Rightarrow> (product_id r, retailer_url off) \<in> set (map buylink_key (buylink_rows s))"
    by (auto simp add: loaded_iff product_of_def)
  from r have u: "upsert_product (product_rows s) (product_row_of nf m) =
      (product_rows s, product_id r)"
    by (simp add: upsert_product_def product_row_of_key)
  then have p: "product_rows (load_mention nf s m) = product_rows s"
    by (simp add: load_mention_products)
  have "map buylink_key (buylink_rows (load_mention nf s m)) = map buylink_key (buylink_rows s)"
  proof (cases "offer m")
    case None
    then show ?thesis by (simp add: load_mention_buylinks)
  next
    case (Some off)
    have "buylink_rows (load_mention nf s m) =
        upsert_buylink (buylink_rows s) (buylink_row_of (product_id r) off)"
      using Some u by (simp add: load_mention_buylinks)
    moreover from l Some have
      "buylink_key (buylink_row_of (product_id r) off) \<in> set (map buylink_key (buylink_rows s))"
      by (simp add: buylink_row_of_key)
    ultimately show ?thesis by (simp only: upsert_buylink_keys if_True)
  qed
  with p show ?thesis ..
qed

subsection \<open>The stage\<close>

lemma load_stage_snoc: "load_stage nf s (ms @ [m]) = load_mention nf (load_stage nf s ms) m"
  by (simp add: load_stage_def)

lemma load_stage_no_duplicates: "no_duplicates s \<Longrightarrow> no_duplicates (load_stage nf s ms)"
  by (induction ms rule: rev_induct)
    (simp_all add: load_stage_snoc load_mention_no_duplicates, simp add: load_stage_def)

lemma load_stage_loaded_stable: "loaded nf s m \<Longrightarrow> loaded nf (load_stage nf s ms) m"
  by (induction ms rule: rev_induct)
    (simp_all add: load_stage_snoc load_mention_loaded_stable, simp add: load_stage_def)

lemma load_stage_loaded: "m \<in> set ms \<Longrightarrow> loaded nf (load_stage nf s ms) m"
proof (induction ms rule: rev_induct)
  case Nil
  then show ?case by simp
next
  case (snoc x xs)
  show ?case
  proof (cases "m = x")
    case True
    then show ?thesis by (simp add: load_stage_snoc load_mention_loaded)
  next
    case False
    with snoc have "loaded nf (load_stage nf s xs) m" by simp
    then show ?thesis by (simp add: load_stage_snoc load_mention_loaded_stable)
  qed
qed

lemma load_stage_again:
  "\<forall>m \<in> set ms. loaded nf s m \<Longrightarrow>
     product_rows (load_stage nf s ms) = product_rows s
     \<and> map buylink_key (buylink_rows (load_stage nf s ms)) = map buylink_key (buylink_rows s)"
proof (induction ms rule: rev_induct)
  case Nil
  then show ?case by (simp add: load_stage_def)
next
  case (snoc x xs)
  then have ih: "product_rows (load_stage nf s xs) = product_rows s"
    "map buylink_key (buylink_rows (load_stage nf s xs)) = map buylink_key (buylink_rows s)"
    by simp_all
  from snoc.prems have "loaded nf s x" by simp
  then have "loaded nf (load_stage nf s xs) x" by (rule load_stage_loaded_stable)
  from load_mention_again [OF this] ih show ?case by (simp add: load_stage_snoc)
qed

text \<open>
  C2. Let a store without duplicates take the same mention set twice. The second load
  adds no Product row and no BuyLink row, the store still has no duplicate key, and for
  every mention of the set there is exactly one Product row under its normalized
  (brand, product name) and, when the mention has an offer, exactly one BuyLink row
  under (the id of that Product, the retailer URL).
\<close>

theorem load_twice:
  assumes "no_duplicates s" and "m \<in> set ms"
  shows "let s1 = load_stage nf s ms; s2 = load_stage nf s1 ms in
    no_duplicates s2
    \<and> product_rows s2 = product_rows s1
    \<and> map buylink_key (buylink_rows s2) = map buylink_key (buylink_rows s1)
    \<and> (\<exists>r. products_with s2 (mention_key nf m) = [r]
         \<and> (case offer m of
              None \<Rightarrow> True
            | Some off \<Rightarrow> length (buylinks_with s2 (product_id r, retailer_url off)) = 1))"
proof -
  define s1 where "s1 = load_stage nf s ms"
  define s2 where "s2 = load_stage nf s1 ms"
  have all: "\<forall>m \<in> set ms. loaded nf s1 m"
    by (simp add: s1_def load_stage_loaded)
  from load_stage_again [OF all] have same: "product_rows s2 = product_rows s1"
    "map buylink_key (buylink_rows s2) = map buylink_key (buylink_rows s1)"
    by (simp_all add: s2_def)
  from assms(1) have nd: "no_duplicates s2"
    by (simp add: s1_def s2_def load_stage_no_duplicates)
  from assms(2) have "loaded nf s2 m"
    by (simp add: s2_def load_stage_loaded)
  then obtain r where r: "product_of s2 (mention_key nf m) = Some r"
    and l: "case offer m of None \<Rightarrow> True
         | Some off \<Rightarrow> (product_id r, retailer_url off) \<in> set (map buylink_key (buylink_rows s2))"
    by (auto simp add: loaded_iff)
  from r have rk: "product_key r = mention_key nf m" and rin: "r \<in> set (product_rows s2)"
    using find_SomeD [of "\<lambda>r. product_key r = mention_key nf m" "product_rows s2" r]
    by (simp_all add: product_of_def)
  from nd rin have "filter (\<lambda>y. product_key y = product_key r) (product_rows s2) = [r]"
    by (intro filter_key_single) (simp_all add: no_duplicates_def)
  with rk have one: "products_with s2 (mention_key nf m) = [r]"
    by (simp add: products_with_def)
  have links: "case offer m of None \<Rightarrow> True
      | Some off \<Rightarrow> length (buylinks_with s2 (product_id r, retailer_url off)) = 1"
  proof (cases "offer m")
    case None
    then show ?thesis by simp
  next
    case (Some off)
    with l obtain x where x: "x \<in> set (buylink_rows s2)"
      "buylink_key x = (product_id r, retailer_url off)"
      by auto
    from nd x(1) have "filter (\<lambda>y. buylink_key y = buylink_key x) (buylink_rows s2) = [x]"
      by (intro filter_key_single) (simp_all add: no_duplicates_def)
    with x(2) Some show ?thesis by (simp add: buylinks_with_def)
  qed
  from nd same one links show ?thesis
    unfolding Let_def s1_def [symmetric] s2_def [symmetric] by blast
qed

theorem load_twice_witness:
  "no_duplicates empty_store
   \<and> gloss_a \<in> set [gloss_a, gloss_b]
   \<and> mention_key normalize_text gloss_a = (''fenty beauty'', ''gloss bomb'')
   \<and> mention_key normalize_text gloss_b = (''fenty beauty'', ''gloss bomb'')
   \<and> no_duplicates
        (load_stage normalize_text (load_stage normalize_text empty_store [gloss_a, gloss_b])
           [gloss_a, gloss_b])
   \<and> products_with
        (load_stage normalize_text (load_stage normalize_text empty_store [gloss_a, gloss_b])
           [gloss_a, gloss_b])
        (''fenty beauty'', ''gloss bomb'') =
       [\<lparr>product_id = 1, row_brand = ''fenty beauty'', row_name = ''gloss bomb'',
         row_category = ''makeup'', row_quote = ''I use the Gloss Bomb every day''\<rparr>]
   \<and> buylinks_with
        (load_stage normalize_text (load_stage normalize_text empty_store [gloss_a, gloss_b])
           [gloss_a, gloss_b])
        (1, ''https://shop.example/gloss-bomb'') =
       [\<lparr>link_product = 1, link_retailer = ''https://shop.example/gloss-bomb'',
         link_price = 1250, link_available = True\<rparr>]"
proof -
  let ?ms = "[gloss_a, gloss_b]"
  let ?s2 = "load_stage normalize_text (load_stage normalize_text empty_store ?ms) ?ms"
  have h1: "no_duplicates empty_store"
    by (simp add: no_duplicates_def empty_store_def)
  have h2: "gloss_a \<in> set ?ms"
    by simp
  have ka: "normalize_text ''Fenty Beauty'' = ''fenty beauty''"
    and na: "normalize_text ''Gloss Bomb'' = ''gloss bomb''"
    and kb: "normalize_text ''FENTY  beauty'' = ''fenty beauty''"
    and nb: "normalize_text ''  gloss   BOMB '' = ''gloss bomb''"
    by code_simp+
  have s2: "?s2 =
      \<lparr>product_rows =
         [\<lparr>product_id = 1, row_brand = ''fenty beauty'', row_name = ''gloss bomb'',
           row_category = ''makeup'', row_quote = ''I use the Gloss Bomb every day''\<rparr>],
       buylink_rows =
         [\<lparr>link_product = 1, link_retailer = ''https://shop.example/gloss-bomb'',
           link_price = 1250, link_available = True\<rparr>]\<rparr>"
    by (simp add: load_stage_def load_mention_def upsert_product_def upsert_buylink_def
        product_row_of_def buylink_row_of_def product_key_def buylink_key_def fresh_id_def
        gloss_a_def gloss_b_def gloss_offer_def empty_store_def ka na kb nb)
  from load_twice [OF h1 h2, of normalize_text] have "no_duplicates ?s2"
    by (simp add: Let_def)
  moreover have "mention_key normalize_text gloss_a = (''fenty beauty'', ''gloss bomb'')"
    "mention_key normalize_text gloss_b = (''fenty beauty'', ''gloss bomb'')"
    by (simp_all add: mention_key_def gloss_a_def gloss_b_def ka na kb nb)
  moreover have "products_with ?s2 (''fenty beauty'', ''gloss bomb'') =
       [\<lparr>product_id = 1, row_brand = ''fenty beauty'', row_name = ''gloss bomb'',
         row_category = ''makeup'', row_quote = ''I use the Gloss Bomb every day''\<rparr>]"
    unfolding s2 by (simp add: products_with_def product_key_def)
  moreover have "buylinks_with ?s2 (1, ''https://shop.example/gloss-bomb'') =
       [\<lparr>link_product = 1, link_retailer = ''https://shop.example/gloss-bomb'',
         link_price = 1250, link_available = True\<rparr>]"
    unfolding s2 by (simp add: buylinks_with_def buylink_key_def)
  ultimately show ?thesis using h1 h2 by simp
qed

end
